theory Spec2Isabelle
  imports Main "HOL-Library.Word"
begin

section \<open>The Kotlin bridge module (ExpoRustBridgeModule.kt)\<close>

subsection \<open>JSON values, Kotlin values and throwables\<close>

text \<open>
  A value held by an \<open>org.json.JSONObject\<close>: \<open>JNull\<close> is \<open>JSONObject.NULL\<close>, an object
  keeps its name/value pairs in insertion order. Numbers are carried unchanged by the
  module, so one constructor stands for all of them.
\<close>

datatype json =
    JNull
  | JBool bool
  | JNum int
  | JStr string
  | JArr "json list"
  | JObj "(string \<times> json) list"










subsection \<open>parseJsonValue and parseJsonResponse\<close>




subsection \<open>The exported functions\<close>

text \<open>The sixteen \<open>external fun native...\<close> declarations.\<close>

datatype native_fn =
    NativeGenerateOAuthUrl
  | NativeParseOAuthCallback
  | NativeExchangeAuthCode
  | NativeRefreshAccessToken
  | NativeGetActivationBytes
  | NativeInitDatabase
  | NativeSyncLibrary
  | NativeSyncLibraryPage
  | NativeGetBooks
  | NativeSearchBooks
  | NativeDownloadBook
  | NativeDecryptAAX
  | NativeValidateActivationBytes
  | NativeGetSupportedLocales
  | NativeGetCustomerInformation
  | NativeLogFromRust


text \<open>A call of one of the seventeen functions the module exports, with its arguments.\<close>

datatype call =
    GenerateOAuthUrl string string
  | ParseOAuthCallback string
  | ExchangeAuthCode string string string string
  | RefreshAccessToken string string string
  | GetActivationBytes string string
  | InitDatabase string
  | SyncLibrary string string
  | SyncLibraryPage string string "32 word"
  | GetBooks string "32 word" "32 word"
  | SearchBooks string string
  | DownloadBook string string string
  | DecryptAAX string string string
  | ValidateActivationBytes string
  | GetSupportedLocales
  | GetCustomerInformation string string
  | TestBridge
  | LogFromRust string

text \<open>The native function a call goes to and the \<open>JSONObject\<close> of parameters it builds;
  \<open>testBridge\<close> calls no native function.\<close>

fun request :: "call \<Rightarrow> (native_fn \<times> (string \<times> json) list) option" where
  "request (GenerateOAuthUrl localeCode deviceSerial) =
     Some (NativeGenerateOAuthUrl,
       [(''locale_code'', JStr localeCode), (''device_serial'', JStr deviceSerial)])"
| "request (ParseOAuthCallback callbackUrl) =
     Some (NativeParseOAuthCallback, [(''callback_url'', JStr callbackUrl)])"
| "request (ExchangeAuthCode localeCode authCode deviceSerial pkceVerifier) =
     Some (NativeExchangeAuthCode,
       [(''locale_code'', JStr localeCode), (''authorization_code'', JStr authCode),
        (''device_serial'', JStr deviceSerial), (''pkce_verifier'', JStr pkceVerifier)])"
| "request (RefreshAccessToken localeCode refreshToken deviceSerial) =
     Some (NativeRefreshAccessToken,
       [(''locale_code'', JStr localeCode), (''refresh_token'', JStr refreshToken),
        (''device_serial'', JStr deviceSerial)])"
| "request (GetActivationBytes localeCode accessToken) =
     Some (NativeGetActivationBytes,
       [(''locale_code'', JStr localeCode), (''access_token'', JStr accessToken)])"
| "request (InitDatabase dbPath) =
     Some (NativeInitDatabase, [(''db_path'', JStr dbPath)])"
| "request (SyncLibrary dbPath accountJson) =
     Some (NativeSyncLibrary,
       [(''db_path'', JStr dbPath), (''account_json'', JStr accountJson)])"
| "request (SyncLibraryPage dbPath accountJson page) =
     Some (NativeSyncLibraryPage,
       [(''db_path'', JStr dbPath), (''account_json'', JStr accountJson),
        (''page'', JNum (sint page))])"
| "request (GetBooks dbPath offset limit) =
     Some (NativeGetBooks,
       [(''db_path'', JStr dbPath), (''offset'', JNum (sint offset)),
        (''limit'', JNum (sint limit))])"
| "request (SearchBooks dbPath query) =
     Some (NativeSearchBooks, [(''db_path'', JStr dbPath), (''query'', JStr query)])"
| "request (DownloadBook asin licenseJson outputPath) =
     Some (NativeDownloadBook,
       [(''asin'', JStr asin), (''license_json'', JStr licenseJson),
        (''output_path'', JStr outputPath)])"
| "request (DecryptAAX inputPath outputPath activationBytes) =
     Some (NativeDecryptAAX,
       [(''input_path'', JStr inputPath), (''output_path'', JStr outputPath),
        (''activation_bytes'', JStr activationBytes)])"
| "request (ValidateActivationBytes activationBytes) =
     Some (NativeValidateActivationBytes, [(''activation_bytes'', JStr activationBytes)])"
| "request GetSupportedLocales = Some (NativeGetSupportedLocales, [])"
| "request (GetCustomerInformation localeCode accessToken) =
     Some (NativeGetCustomerInformation,
       [(''locale_code'', JStr localeCode), (''access_token'', JStr accessToken)])"
| "request TestBridge = None"
| "request (LogFromRust msg) = Some (NativeLogFromRust, [(''message'', JStr msg)])"











section \<open>Key material and its hex-encoded form\<close>

type_synonym byte = "8 word"

text \<open>
  The two shapes of content key material (the \<open>drm_kind\<close> and \<open>key_material\<close> of a
  \<open>LicenseVoucher\<close>): a short activation key, or a key with its initialisation vector.
\<close>

datatype key_material =
    TypeA "byte list"
  | TypeB "byte list" "byte list"

definition hex_digit :: "nat \<Rightarrow> char" where
  "hex_digit n = (if n < 10 then char_of (48 + n) else char_of (87 + n))"

fun hex_encode :: "byte list \<Rightarrow> string" where
  "hex_encode [] = []"
| "hex_encode (b # bs) = hex_digit (unat b div 16) # hex_digit (unat b mod 16) # hex_encode bs"

definition hex_value :: "char \<Rightarrow> nat option" where
  "hex_value c =
     (let n = (of_char c :: nat) in
      if 48 \<le> n \<and> n \<le> 57 then Some (n - 48)
      else if 97 \<le> n \<and> n \<le> 102 then Some (n - 87)
      else if 65 \<le> n \<and> n \<le> 70 then Some (n - 55)
      else None)"

fun hex_decode :: "string \<Rightarrow> byte list option" where
  "hex_decode [] = Some []"
| "hex_decode [c] = None"
| "hex_decode (c # d # cs) =
     (case (hex_value c, hex_value d, hex_decode cs) of
        (Some h, Some l, Some bs) \<Rightarrow> Some (of_nat (16 * h + l) # bs)
      | _ \<Rightarrow> None)"

text \<open>
  The hex-encoded strings that hand a key material to the converter: one string per
  component (\<open>-activation_bytes\<close> for the first shape, \<open>-audible_key\<close> and
  \<open>-audible_iv\<close> for the second).
\<close>

fun key_strings :: "key_material \<Rightarrow> string list" where
  "key_strings (TypeA k) = [hex_encode k]"
| "key_strings (TypeB k iv) = [hex_encode k, hex_encode iv]"

text \<open>
  The key-material arguments a call hands to the native layer: the string parameters
  other than the two file paths. For \<open>decryptAAX\<close> (and \<open>rust_decrypt_aax\<close>, declared
  with the same three parameters) this is the one string \<open>activation_bytes\<close>.
\<close>

definition key_arguments :: "call \<Rightarrow> string list" where
  "key_arguments c =
     (case request c of
        None \<Rightarrow> []
      | Some (f, params) \<Rightarrow>
          concat (map (\<lambda>(name, v).
              (case v of
                 JStr s \<Rightarrow> if name = ''input_path'' \<or> name = ''output_path'' then [] else [s]
               | _ \<Rightarrow> []))
            params))"

text \<open>The parameters of \<open>rust_decrypt_aax\<close> as ios_bridge.h declares them.\<close>

definition rust_decrypt_aax_parameters :: "string list" where
  "rust_decrypt_aax_parameters = [''input_path'', ''output_path'', ''activation_bytes'']"

text \<open>The format ios_bridge.h documents for \<open>activation_bytes\<close>: eight hex characters,
  as in 1CEB00DA.\<close>

definition is_hex_char :: "char \<Rightarrow> bool" where
  "is_hex_char c = (hex_value c \<noteq> None)"

definition activation_bytes_format :: "string \<Rightarrow> bool" where
  "activation_bytes_format s = (length s = 8 \<and> list_all is_hex_char s)"

text \<open>The example pair of QUICK_START.md (key 7ed05bd5..., iv d957c0f2...).\<close>

definition example_key :: "byte list" where
  "example_key = [0x7e, 0xd0, 0x5b, 0xd5, 0xf2, 0xe7, 0xba, 0xbd,
                  0x20, 0xd9, 0x84, 0xde, 0x15, 0x86, 0x21, 0x81]"

definition example_iv :: "byte list" where
  "example_iv = [0xd9, 0x57, 0xc0, 0xf2, 0x75, 0x89, 0x57, 0x59,
                 0xe0, 0xda, 0x5a, 0xea, 0x7a, 0xec, 0xaa, 0x04]"

definition example_activation :: "byte list" where
  "example_activation = [0x1c, 0xeb, 0x00, 0xda]"

section \<open>The license decryptor: classifying key material\<close>

text \<open>The file format detection shown in QUICK_START.md:
  \<^verbatim>\<open>match (key_len, iv_len) { (4, None) => AAX, (16, Some(16)) => AAXC, _ => Unknown }\<close>\<close>

datatype file_type = AAX | AAXC | Unknown

definition detect_file_type :: "nat \<Rightarrow> nat option \<Rightarrow> file_type" where
  "detect_file_type key_len iv_len =
     (if key_len = 4 \<and> iv_len = None then AAX
      else if key_len = 16 \<and> iv_len = Some 16 then AAXC
      else Unknown)"

text \<open>Modelled from the spec: the two failures of the license decryptor (license.rs is
  missing).\<close>

datatype license_error = DecryptionError | MalformedVoucherError

text \<open>
  Modelled from the spec: \<open>parse_key_material\<close> of the license decryptor (the Rust
  source \<open>src/api/license.rs\<close> is not among the source files). It extracts the
  hex-encoded \<open>key\<close> field, and the \<open>iv\<close> field if present, from the decrypted
  structured payload and classifies by the decoded lengths: 4 bytes is the first
  shape, 16 + 16 bytes the second, anything else fails with \<open>MalformedVoucherError\<close>.
  A field that is no hex string has no length to classify and fails the same way.
\<close>

definition parse_key_material :: "(string \<times> json) list \<Rightarrow> license_error + key_material" where
  "parse_key_material payload =
     (case map_of payload ''key'' of
        Some (JStr key_hex) \<Rightarrow>
          (case hex_decode key_hex of
             None \<Rightarrow> Inl MalformedVoucherError
           | Some key \<Rightarrow>
               (case map_of payload ''iv'' of
                  None \<Rightarrow>
                    if length key = 4 then Inr (TypeA key) else Inl MalformedVoucherError
                | Some (JStr iv_hex) \<Rightarrow>
                    (case hex_decode iv_hex of
                       None \<Rightarrow> Inl MalformedVoucherError
                     | Some iv \<Rightarrow>
                         if length key = 16 \<and> length iv = 16 then Inr (TypeB key iv)
                         else Inl MalformedVoucherError)
                | Some _ \<Rightarrow> Inl MalformedVoucherError))
      | _ \<Rightarrow> Inl MalformedVoucherError)"

text \<open>Modelled from the spec: the decrypted structured payload that carries a key, and
  an iv if there is one, each hex-encoded (license.rs is missing).\<close>

definition voucher_payload :: "byte list \<Rightarrow> byte list option \<Rightarrow> (string \<times> json) list" where
  "voucher_payload key iv =
     (''key'', JStr (hex_encode key)) #
     (case iv of None \<Rightarrow> [] | Some v \<Rightarrow> [(''iv'', JStr (hex_encode v))])"

section \<open>The resumable stream\<close>

text \<open>
  Modelled from the spec: the persisted \<open>DownloadState\<close> of the data model (the Rust
  source \<open>src/download/stream.rs\<close> is not among the source files). \<open>bytes_written\<close> is
  the last durably flushed write offset, the only position a resume trusts.
\<close>

record download_state =
  source_url :: string
  bytes_written :: nat
  total_bytes :: "nat option"
  request_headers :: "(string \<times> string) list"
  last_updated :: nat

text \<open>
  Modelled from the spec: what a \<open>ResumableStream\<close> owns (stream.rs is missing). The
  payload at \<open>destination_path\<close> as far as it is durable, the companion
  \<open>destination_path.state\<close> record if there is one, the offset at which the next
  flush writes, the chunks read since the last flush, and the log.
\<close>

record stream =
  dest_file :: "byte list"
  state_file :: "download_state option"
  write_offset :: nat
  unflushed :: "byte list"
  stream_log :: "string list"

text \<open>Modelled from the spec: the parts of a response the stream looks at.\<close>

record http_response =
  status :: nat
  content_range :: "string option"
  content_length :: "nat option"

text \<open>Modelled from the spec: the conditions of the error taxonomy a request can end in.\<close>

datatype stream_error = NeedsFreshUrl | TransientNetwork

text \<open>Modelled from the spec: the flush threshold (1 MiB) of the chunked transfer.\<close>

definition flush_threshold :: nat where
  "flush_threshold = 1048576"

text \<open>Modelled from the spec: writing bytes at an offset of the destination file, which
  is never truncated (stream.rs is missing).\<close>

definition write_at :: "nat \<Rightarrow> byte list \<Rightarrow> byte list \<Rightarrow> byte list" where
  "write_at p bs f = take p f @ bs @ drop (p + length bs) f"

text \<open>
  Modelled from the spec: the flush of the chunked transfer (stream.rs is missing). The
  buffered bytes become durable, and only then is the state persisted with
  \<open>bytes_written\<close> advanced to the new offset.
\<close>

definition flush :: "nat \<Rightarrow> stream \<Rightarrow> stream" where
  "flush now s =
     (let p = write_offset s + length (unflushed s) in
      s\<lparr>dest_file := write_at (write_offset s) (unflushed s) (dest_file s),
        write_offset := p,
        unflushed := [],
        state_file :=
          map_option (\<lambda>st. st\<lparr>bytes_written := p, last_updated := now\<rparr>) (state_file s)\<rparr>)"

text \<open>
  Modelled from the spec: reading one chunk of the body (stream.rs is missing): it is
  appended, and once the accumulated bytes reach the threshold the stream flushes.
\<close>

definition receive_chunk :: "nat \<Rightarrow> byte list \<Rightarrow> stream \<Rightarrow> stream" where
  "receive_chunk now chunk s =
     (let s' = s\<lparr>unflushed := unflushed s @ chunk\<rparr> in
      if flush_threshold \<le> length (unflushed s') then flush now s' else s')"

text \<open>
  Modelled from the spec: an interruption (crash, kill, power loss) at any point of the
  streaming. Of the bytes not yet flushed, the first \<open>n\<close> happen to have reached the
  disk; the rest is lost with the process, and the state record stays as last persisted.
\<close>

definition interrupt :: "nat \<Rightarrow> stream \<Rightarrow> stream" where
  "interrupt n s =
     s\<lparr>dest_file := write_at (write_offset s) (take n (unflushed s)) (dest_file s),
       unflushed := []\<rparr>"

text \<open>
  Modelled from the spec: loading the persisted state (stream.rs is missing). The
  destination file's length must be at least \<open>bytes_written\<close>; if not, the state is
  considered corrupt, as if there were none, and the transfer restarts from zero.
\<close>

definition load_state :: "stream \<Rightarrow> download_state option" where
  "load_state s =
     (case state_file s of
        None \<Rightarrow> None
      | Some st \<Rightarrow> if length (dest_file s) < bytes_written st then None else Some st)"

text \<open>Modelled from the spec: the start of the \<open>Range\<close> header the request carries, if
  it carries one (stream.rs is missing).\<close>

definition range_start :: "stream \<Rightarrow> nat option" where
  "range_start s = map_option bytes_written (load_state s)"

text \<open>Modelled from the spec: a new transfer from byte 0 (stream.rs is missing).\<close>

definition new_transfer ::
  "string \<Rightarrow> (string \<times> string) list \<Rightarrow> nat \<Rightarrow> http_response \<Rightarrow> stream \<Rightarrow> stream" where
  "new_transfer url headers now resp s =
     s\<lparr>dest_file := [],
       state_file := Some \<lparr>source_url = url, bytes_written = 0,
         total_bytes = content_length resp, request_headers = headers, last_updated = now\<rparr>,
       write_offset := 0,
       unflushed := []\<rparr>"

text \<open>
  Modelled from the spec: when the response to a range request shows that the range
  was honoured, and when it shows a range mismatch (stream.rs is missing). A 206
  response with its \<open>Content-Range\<close> header confirms the resume. The server ignored
  the range when it answers 200 instead of 206, or when the \<open>Content-Range\<close> header
  is missing from its answer.
\<close>

definition range_honoured :: "http_response \<Rightarrow> bool" where
  "range_honoured resp = (status resp = 206 \<and> content_range resp \<noteq> None)"

definition range_mismatch :: "http_response \<Rightarrow> bool" where
  "range_mismatch resp =
     (status resp = 200 \<or> (status resp = 206 \<and> content_range resp = None))"

text \<open>
  Modelled from the spec: \<open>start(url, headers, destination)\<close> up to the response
  (stream.rs is missing). Without a usable persisted state the transfer opens from
  byte 0. With one, the request is a range request from \<open>bytes_written\<close>: when the
  range was honoured the transfer resumes there; a range mismatch is treated as a full
  restart that discards the prior \<open>bytes_written\<close>, which is logged and is no error.
  An auth-class status asks the caller for a fresh URL, any other status takes the
  retry path.
\<close>

definition start ::
  "string \<Rightarrow> (string \<times> string) list \<Rightarrow> nat \<Rightarrow> http_response \<Rightarrow> stream
     \<Rightarrow> stream_error + stream" where
  "start url headers now resp s =
     (case load_state s of
        None \<Rightarrow>
          if status resp = 200 then Inr (new_transfer url headers now resp s)
          else if status resp = 403 then Inl NeedsFreshUrl
          else Inl TransientNetwork
      | Some st \<Rightarrow>
          if range_honoured resp then
            Inr (s\<lparr>write_offset := bytes_written st, unflushed := [],
                   state_file := Some (st\<lparr>source_url := url, last_updated := now\<rparr>)\<rparr>)
          else if range_mismatch resp then
            Inr ((new_transfer url headers now resp s)
                   \<lparr>stream_log := stream_log s @ [''range ignored by server: full restart'']\<rparr>)
          else if status resp = 403 then Inl NeedsFreshUrl
          else Inl TransientNetwork)"

text \<open>Modelled from the spec: what happens to a stream (stream.rs is missing): chunks
  arrive, the timer flushes, the process is interrupted, and the transfer is started
  again with the server's response.\<close>

datatype stream_event =
    Chunk nat "byte list"
  | TimerFlush nat
  | Interrupt nat
  | Start string "(string \<times> string) list" nat http_response

text \<open>Modelled from the spec: the effect of one such event; a start that fails leaves
  the file and the state as they are.\<close>

fun stream_step :: "stream \<Rightarrow> stream_event \<Rightarrow> stream" where
  "stream_step s (Chunk now chunk) = receive_chunk now chunk s"
| "stream_step s (TimerFlush now) = flush now s"
| "stream_step s (Interrupt n) = interrupt n s"
| "stream_step s (Start url headers now resp) =
     (case start url headers now resp s of Inr s' \<Rightarrow> s' | Inl e \<Rightarrow> s)"

text \<open>Modelled from the spec: the durability invariant of the data model: the persisted
  \<open>bytes_written\<close> is within the destination file.\<close>

definition durable :: "stream \<Rightarrow> bool" where
  "durable s =
     (case state_file s of None \<Rightarrow> True | Some st \<Rightarrow> bytes_written st \<le> length (dest_file s))"

text \<open>Example data: a persisted state at offset 3, files of 5 and of 2 bytes, and
  three responses to a range request: a 206 with its \<open>Content-Range\<close>, a 200 without
  one, and a 206 without one.\<close>

definition example_state :: download_state where
  "example_state =
     \<lparr>source_url = ''https://cdn.example/book.aax'', bytes_written = 3, total_bytes = Some 8,
      request_headers = [(''User-Agent'', ''Audible/671'')], last_updated = 0\<rparr>"

definition example_stream :: stream where
  "example_stream =
     \<lparr>dest_file = [1, 2, 3, 4, 5], state_file = Some example_state, write_offset = 0,
      unflushed = [], stream_log = []\<rparr>"

definition truncated_stream :: stream where
  "truncated_stream = example_stream\<lparr>dest_file := [1, 2]\<rparr>"

definition partial_content :: http_response where
  "partial_content =
     \<lparr>status = 206, content_range = Some ''bytes 3-7/8'', content_length = Some 5\<rparr>"

definition full_content :: http_response where
  "full_content = \<lparr>status = 200, content_range = None, content_length = Some 8\<rparr>"


text \<open>Modelled from the spec: the invariant that carries the durability through the
  stream's operations: the write offset is within the file and the persisted offset is
  not beyond it.\<close>

definition stream_inv :: "stream \<Rightarrow> bool" where
  "stream_inv s =
     (write_offset s \<le> length (dest_file s) \<and>
      (case state_file s of None \<Rightarrow> True | Some st \<Rightarrow> bytes_written st \<le> write_offset s))"

section \<open>The progress tracker\<close>

text \<open>
  Modelled from the spec: the \<open>ProgressSnapshot\<close> of the data model (the Rust source
  \<open>src/download/progress.rs\<close> is not among the source files). Rates are in bytes per
  second; \<open>eta\<close> is undefined when the smoothed rate is zero.
\<close>

record progress_snapshot =
  bytes_done :: nat
  bytes_total :: nat
  instantaneous_rate :: nat
  smoothed_rate :: nat
  eta :: "nat option"

text \<open>
  Modelled from the spec: the state of a \<open>ProgressTracker\<close> (progress.rs is missing):
  the byte counter, the total, the last rate samples, the current sampling window, the
  time of the last emission, and whether the task has reached a terminal state.
\<close>

record progress_tracker =
  counted :: nat
  expected :: nat
  samples :: "nat list"
  window_start :: nat
  window_bytes :: nat
  last_emit :: "nat option"
  terminal :: bool

text \<open>Modelled from the spec: the constants of the tracker: 10 samples, windows of one
  second, one emission per 200 ms (times are in milliseconds).\<close>

definition sample_count :: nat where
  "sample_count = 10"

definition sample_window :: nat where
  "sample_window = 1000"

definition emit_interval :: nat where
  "emit_interval = 200"

text \<open>
  Modelled from the spec: \<open>record(bytes_delta)\<close> (progress.rs is missing). It
  accumulates the bytes; when the sampling window is over, the window's rate becomes
  the newest of the last \<open>sample_count\<close> samples.
\<close>

definition record_bytes :: "nat \<Rightarrow> nat \<Rightarrow> progress_tracker \<Rightarrow> progress_tracker" where
  "record_bytes now bytes_delta t =
     (let t' = t\<lparr>counted := counted t + bytes_delta,
                 window_bytes := window_bytes t + bytes_delta\<rparr>;
          elapsed = now - window_start t
      in if sample_window \<le> elapsed then
           t'\<lparr>samples := take sample_count ((window_bytes t' * 1000) div elapsed # samples t),
              window_start := now,
              window_bytes := 0\<rparr>
         else t')"

text \<open>
  Modelled from the spec: \<open>should_emit(now)\<close> (progress.rs is missing): true at most
  once per interval, and always at 0 percent, at 100 percent and in a terminal state.
\<close>

definition should_emit :: "nat \<Rightarrow> progress_tracker \<Rightarrow> bool" where
  "should_emit now t =
     (counted t = 0 \<or> expected t \<le> counted t \<or> terminal t \<or>
      (case last_emit t of None \<Rightarrow> True | Some l \<Rightarrow> l + emit_interval \<le> now))"

text \<open>Modelled from the spec: \<open>snapshot()\<close> (progress.rs is missing), with the moving
  average of the samples as the smoothed rate.\<close>

definition snapshot :: "progress_tracker \<Rightarrow> progress_snapshot" where
  "snapshot t =
     (let smoothed = (if samples t = [] then 0 else sum_list (samples t) div length (samples t))
      in \<lparr>bytes_done = counted t,
          bytes_total = expected t,
          instantaneous_rate = (case samples t of [] \<Rightarrow> 0 | r # _ \<Rightarrow> r),
          smoothed_rate = smoothed,
          eta = (if smoothed = 0 then None else Some ((expected t - counted t) div smoothed))\<rparr>)"

text \<open>Modelled from the spec: the percentage, clamped to the range 0 to 100.\<close>

definition percent :: "progress_snapshot \<Rightarrow> nat" where
  "percent p = (if bytes_total p = 0 then 0 else min 100 (bytes_done p * 100 div bytes_total p))"

text \<open>
  Modelled from the spec: one report tick of a task (progress.rs is missing): the bytes
  are recorded, and if the tracker should emit, the snapshot goes to the subscribers.
\<close>

definition report :: "nat \<Rightarrow> nat \<Rightarrow> progress_tracker \<Rightarrow> progress_tracker \<times> progress_snapshot list" where
  "report now bytes_delta t =
     (let t' = record_bytes now bytes_delta t in
      if should_emit now t' then (t'\<lparr>last_emit := Some now\<rparr>, [snapshot t']) else (t', []))"

text \<open>Modelled from the spec: the emissions of one task over its report ticks, each a
  time and a byte count (progress.rs is missing).\<close>

fun emissions :: "progress_tracker \<Rightarrow> (nat \<times> nat) list \<Rightarrow> progress_snapshot list" where
  "emissions t [] = []"
| "emissions t ((now, bytes_delta) # ticks) =
     (case report now bytes_delta t of (t', out) \<Rightarrow> out @ emissions t' ticks)"

text \<open>Modelled from the spec: the tracker of a task that starts (progress.rs is
  missing).\<close>

definition new_tracker :: "nat \<Rightarrow> nat \<Rightarrow> progress_tracker" where
  "new_tracker now size_in_bytes =
     \<lparr>counted = 0, expected = size_in_bytes, samples = [], window_start = now, window_bytes = 0,
      last_emit = None, terminal = False\<rparr>"

section \<open>The JavaScript side: values shared by the hook and the screen\<close>

text \<open>A thrown value or a rejected promise, with its message.\<close>

datatype js_error = JsError string

fun error_message :: "js_error \<Rightarrow> string" where
  "error_message (JsError m) = m"

text \<open>A JavaScript number that is an integer or \<open>NaN\<close> (\<open>None\<close>); times are in
  milliseconds since the epoch.\<close>

type_synonym js_number = "int option"

text \<open>Truthiness of a string that may be null: null and the empty string are falsy.\<close>

fun truthy :: "string option \<Rightarrow> bool" where
  "truthy None = False"
| "truthy (Some s) = (s \<noteq> [])"

text \<open>
  What the code takes from its surroundings: the clock (\<open>Date.now()\<close>, taken to stand
  still during one invocation), the parsing of a date string (\<open>new Date(s).getTime()\<close>),
  \<open>toISOString\<close> (which throws a \<open>RangeError\<close> outside the range of valid dates), and
  for which keys a read or a write of \<open>SecureStore\<close> is rejected.
\<close>

record js_env =
  clock :: int
  parseDate :: "string \<Rightarrow> js_number"
  isoString :: "int \<Rightarrow> string"
  read_fails :: "string \<Rightarrow> bool"
  write_fails :: "string \<Rightarrow> bool"

type_synonym secure_store = "string \<rightharpoonup> string"

definition getItemAsync :: "'a js_env_scheme \<Rightarrow> secure_store \<Rightarrow> string \<Rightarrow> js_error + string option" where
  "getItemAsync env st key =
     (if read_fails env key then Inl (JsError ''SecureStore read rejected'') else Inr (st key))"

definition setItemAsync ::
  "'a js_env_scheme \<Rightarrow> string \<Rightarrow> string \<Rightarrow> secure_store \<Rightarrow> js_error + secure_store" where
  "setItemAsync env key v st =
     (if write_fails env key then Inl (JsError ''SecureStore write rejected'')
      else Inr (st(key \<mapsto> v)))"

text \<open>\<open>new Date(t).toISOString()\<close> for a number \<open>t\<close>.\<close>

definition toISOString :: "'a js_env_scheme \<Rightarrow> js_number \<Rightarrow> js_error + string" where
  "toISOString env t =
     (case t of
        None \<Rightarrow> Inl (JsError ''Invalid time value'')
      | Some ms \<Rightarrow>
          if \<bar>ms\<bar> \<le> 8640000000000000 then Inr (isoString env ms)
          else Inl (JsError ''Invalid time value''))"

section \<open>The authentication hook (useAuthentication.ts)\<close>

definition ACCESS_TOKEN :: string where "ACCESS_TOKEN = ''audible_access_token''"
definition REFRESH_TOKEN :: string where "REFRESH_TOKEN = ''audible_refresh_token''"
definition TOKEN_EXPIRES_AT :: string where "TOKEN_EXPIRES_AT = ''audible_token_expires_at''"
definition DEVICE_SERIAL :: string where "DEVICE_SERIAL = ''audible_device_serial''"
definition LOCALE_CODE :: string where "LOCALE_CODE = ''audible_locale_code''"

record token_response =
  access_token :: string
  refresh_token :: string
  expires_in :: js_number
  token_type :: string

record auth_state =
  isAuthenticated :: bool
  isLoading :: bool
  error :: "js_error option"
  tokens :: "token_response option"
  localeCode :: "string option"

text \<open>What \<open>ExpoRustBridge.refreshAccessToken\<close> resolves to.\<close>

record bridge_data =
  data_access_token :: string
  data_refresh_token :: "string option"
  data_expires_in :: js_number
  data_token_type :: "string option"

record bridge_result =
  success :: bool
  data :: "bridge_data option"
  error_text :: "string option"

text \<open>The surroundings of the hook: in addition, what the bridge answers to a refresh.\<close>

record auth_env = js_env +
  refresh_reply :: "js_error + bridge_result"

text \<open>
  The hook's world: its React state, the secure store, and the calls made to the
  bridge's \<open>refreshAccessToken\<close> (locale code, refresh token, device serial).
\<close>

record auth_world =
  auth :: auth_state
  secure_store :: secure_store
  bridge_calls :: "(string \<times> string \<times> string) list"

text \<open>The try block of \<open>handleOAuthSuccess\<close>: the four or five writes, one after the
  other; a rejected write leaves the earlier ones in the store.\<close>

definition store_tokens ::
  "auth_env \<Rightarrow> token_response \<Rightarrow> string \<Rightarrow> string option \<Rightarrow> secure_store
     \<Rightarrow> js_error option \<times> secure_store" where
  "store_tokens env tokenResponse locale deviceSerial st0 =
     (case setItemAsync env ACCESS_TOKEN (access_token tokenResponse) st0 of
        Inl e \<Rightarrow> (Some e, st0)
      | Inr st1 \<Rightarrow>
     (case setItemAsync env REFRESH_TOKEN (refresh_token tokenResponse) st1 of
        Inl e \<Rightarrow> (Some e, st1)
      | Inr st2 \<Rightarrow>
     (case toISOString env
             (map_option (\<lambda>s. clock env + s * 1000) (expires_in tokenResponse)) of
        Inl e \<Rightarrow> (Some e, st2)
      | Inr expiry \<Rightarrow>
     (case setItemAsync env TOKEN_EXPIRES_AT expiry st2 of
        Inl e \<Rightarrow> (Some e, st2)
      | Inr st3 \<Rightarrow>
     (case setItemAsync env LOCALE_CODE locale st3 of
        Inl e \<Rightarrow> (Some e, st3)
      | Inr st4 \<Rightarrow>
          if truthy deviceSerial then
            (case setItemAsync env DEVICE_SERIAL (the deviceSerial) st4 of
               Inl e \<Rightarrow> (Some e, st4)
             | Inr st5 \<Rightarrow> (None, st5))
          else (None, st4))))))"

definition handleOAuthSuccess ::
  "auth_env \<Rightarrow> token_response \<Rightarrow> string \<Rightarrow> string option \<Rightarrow> auth_world \<Rightarrow> auth_world" where
  "handleOAuthSuccess env tokenResponse locale deviceSerial w =
     (case store_tokens env tokenResponse locale deviceSerial (secure_store w) of
        (None, st) \<Rightarrow>
          w\<lparr>secure_store := st,
            auth := \<lparr>isAuthenticated = True, isLoading = False, error = None,
                     tokens = Some tokenResponse, localeCode = Some locale\<rparr>\<rparr>
      | (Some e, st) \<Rightarrow>
          w\<lparr>secure_store := st,
            auth := (auth w)\<lparr>isLoading := False, error := Some e\<rparr>\<rparr>)"

text \<open>\<open>logout\<close>: the five deletions run together; those that are not rejected take
  effect, and one rejection sends the function to its catch block.\<close>

definition logout :: "auth_env \<Rightarrow> auth_world \<Rightarrow> auth_world" where
  "logout env w =
     (let keys = [ACCESS_TOKEN, REFRESH_TOKEN, TOKEN_EXPIRES_AT, DEVICE_SERIAL, LOCALE_CODE];
          st = (\<lambda>k. if k \<in> set keys \<and> \<not> write_fails env k then None else secure_store w k)
      in if \<exists>k \<in> set keys. write_fails env k then
           w\<lparr>secure_store := st,
             auth := (auth w)\<lparr>error := Some (JsError ''SecureStore delete rejected'')\<rparr>\<rparr>
         else
           w\<lparr>secure_store := st,
             auth := \<lparr>isAuthenticated = False, isLoading = False, error = None,
                      tokens = None, localeCode = None\<rparr>\<rparr>)"

text \<open>The try block of \<open>refreshAccessToken\<close> after \<open>isLoading\<close> is set; \<open>Inl\<close> is what it
  throws, together with the world as it is then.\<close>

definition refreshAccessToken_try :: "auth_env \<Rightarrow> auth_world \<Rightarrow> (js_error \<times> auth_world) + auth_world" where
  "refreshAccessToken_try env w =
     (case getItemAsync env (secure_store w) REFRESH_TOKEN of
        Inl e \<Rightarrow> Inl (e, w)
      | Inr refreshTokenValue \<Rightarrow>
     (case getItemAsync env (secure_store w) LOCALE_CODE of
        Inl e \<Rightarrow> Inl (e, w)
      | Inr locale \<Rightarrow>
     (case getItemAsync env (secure_store w) DEVICE_SERIAL of
        Inl e \<Rightarrow> Inl (e, w)
      | Inr deviceSerial \<Rightarrow>
          if \<not> truthy refreshTokenValue \<or> \<not> truthy locale \<or> \<not> truthy deviceSerial then
            Inl (JsError ''Missing refresh token, locale code, or device serial'', w)
          else
            (let w1 = w\<lparr>bridge_calls := bridge_calls w @
                        [(the locale, the refreshTokenValue, the deviceSerial)]\<rparr>
             in case refresh_reply env of
                  Inl e \<Rightarrow> Inl (e, w1)
                | Inr result \<Rightarrow>
                    (case (success result, data result) of
                       (True, Some d) \<Rightarrow>
                         Inr (handleOAuthSuccess env
                           \<lparr>access_token = data_access_token d,
                            refresh_token =
                              (if truthy (data_refresh_token d) then the (data_refresh_token d)
                               else the refreshTokenValue),
                            expires_in = data_expires_in d,
                            token_type =
                              (if truthy (data_token_type d) then the (data_token_type d)
                               else ''Bearer'')\<rparr>
                           (the locale) None w1)
                     | _ \<Rightarrow>
                         Inl (JsError (if truthy (error_text result) then the (error_text result)
                                       else ''Failed to refresh token''), w1))))))"

definition refreshAccessToken :: "auth_env \<Rightarrow> auth_world \<Rightarrow> bool \<times> auth_world" where
  "refreshAccessToken env w =
     (case refreshAccessToken_try env (w\<lparr>auth := (auth w)\<lparr>isLoading := True\<rparr>\<rparr>) of
        Inr w' \<Rightarrow> (True, w')
      | Inl (e, w') \<Rightarrow> (False, w'\<lparr>auth := (auth w')\<lparr>isLoading := False, error := Some e\<rparr>\<rparr>))"

text \<open>The two tests on the stored expiry: a comparison with \<open>NaN\<close> is false.\<close>

definition isExpired :: "auth_env \<Rightarrow> string option \<Rightarrow> bool" where
  "isExpired env expiresAt =
     (if truthy expiresAt then
        (case parseDate env (the expiresAt) of None \<Rightarrow> False | Some t \<Rightarrow> t < clock env)
      else False)"

definition isExpiringSoon :: "auth_env \<Rightarrow> string option \<Rightarrow> bool" where
  "isExpiringSoon env expiresAt =
     (if truthy expiresAt then
        (case parseDate env (the expiresAt) of
           None \<Rightarrow> False
         | Some t \<Rightarrow> t < clock env + 5 * 60 * 1000)
      else False)"

text \<open>The four reads of \<open>checkAuthentication\<close>, awaited together.\<close>

definition read_tokens ::
  "auth_env \<Rightarrow> secure_store
     \<Rightarrow> js_error + (string option \<times> string option \<times> string option \<times> string option)" where
  "read_tokens env st =
     (case getItemAsync env st ACCESS_TOKEN of Inl e \<Rightarrow> Inl e | Inr a \<Rightarrow>
     (case getItemAsync env st REFRESH_TOKEN of Inl e \<Rightarrow> Inl e | Inr r \<Rightarrow>
     (case getItemAsync env st TOKEN_EXPIRES_AT of Inl e \<Rightarrow> Inl e | Inr x \<Rightarrow>
     (case getItemAsync env st LOCALE_CODE of Inl e \<Rightarrow> Inl e | Inr l \<Rightarrow>
        Inr (a, r, x, l)))))"

definition checkAuthentication :: "auth_env \<Rightarrow> auth_world \<Rightarrow> bool \<times> auth_world" where
  "checkAuthentication env w0 =
     (let w = w0\<lparr>auth := (auth w0)\<lparr>isLoading := True\<rparr>\<rparr> in
      case read_tokens env (secure_store w) of
        Inl e \<Rightarrow>
          (False, w\<lparr>auth := \<lparr>isAuthenticated = False, isLoading = False, error = Some e,
                              tokens = None, localeCode = None\<rparr>\<rparr>)
      | Inr (accessToken, refreshToken, expiresAt, locale) \<Rightarrow>
          if \<not> truthy accessToken \<or> \<not> truthy refreshToken then
            (False, w\<lparr>auth := \<lparr>isAuthenticated = False, isLoading = False, error = None,
                                tokens = None, localeCode = None\<rparr>\<rparr>)
          else if isExpired env expiresAt \<or> isExpiringSoon env expiresAt then
            (case refreshAccessToken env w of
               (False, w') \<Rightarrow> (False, logout env w')
             | (True, w') \<Rightarrow> (True, w'))
          else
            (True, w\<lparr>auth := \<lparr>isAuthenticated = True, isLoading = False, error = None,
                tokens = Some \<lparr>access_token = the accessToken,
                  refresh_token = the refreshToken,
                  expires_in =
                    (if truthy expiresAt then
                       map_option (\<lambda>t. (t - clock env) div 1000) (parseDate env (the expiresAt))
                     else Some 3600),
                  token_type = ''Bearer''\<rparr>,
                localeCode = locale\<rparr>\<rparr>))"

text \<open>Example data: surroundings in which nothing is rejected and the bridge would
  refuse a refresh, and a store that holds both tokens and no expiry.\<close>

definition example_auth_env :: auth_env where
  "example_auth_env =
     \<lparr>clock = 1000000, parseDate = (\<lambda>s. None), isoString = (\<lambda>t. ''2026-01-01T00:00:00.000Z''),
      read_fails = (\<lambda>k. False), write_fails = (\<lambda>k. False),
      refresh_reply = Inl (JsError ''network error'')\<rparr>"

definition example_auth_world :: auth_world where
  "example_auth_world =
     \<lparr>auth = \<lparr>isAuthenticated = False, isLoading = True, error = None, tokens = None,
              localeCode = None\<rparr>,
      secure_store = [ACCESS_TOKEN \<mapsto> ''Atna|a'', REFRESH_TOKEN \<mapsto> ''Atnr|r'',
                      LOCALE_CODE \<mapsto> ''us''],
      bridge_calls = []\<rparr>"

section \<open>The library screen (LibraryScreen.tsx)\<close>

definition DOWNLOAD_PATH_KEY :: string where "DOWNLOAD_PATH_KEY = ''download_path''"

text \<open>A \<open>Book\<close>, as far as the screen's download code reads it.\<close>

record book =
  audible_product_id :: string
  title :: string
  file_path :: "string option"

text \<open>An \<open>Account\<close>, as far as \<open>handleDownload\<close> reads and writes it.\<close>

record access_token_info =
  token :: string
  expires_at :: string

record account_identity =
  identity_access_token :: "access_token_info option"
  identity_refresh_token :: string

record account =
  account_id :: string
  identity :: "account_identity option"

text \<open>What \<open>refreshToken\<close> and \<open>downloadAndDecryptBook\<close> resolve to.\<close>

record new_tokens =
  new_access_token :: string
  new_refresh_token :: string
  new_expires_in :: string

record download_result =
  outputPath :: string
  duration :: nat

text \<open>
  What the screen does to the outside: an alert with its title and message, a call of
  \<open>refreshToken\<close>, and a call of \<open>downloadAndDecryptBook\<close> with the account, the
  product id, the download directory and the quality.
\<close>

datatype effect =
    Alert string string
  | RefreshToken account
  | DownloadAndDecryptBook account string string string

text \<open>
  The surroundings of one invocation of \<open>handleDownload\<close>: in addition, \<open>JSON.parse\<close>
  and \<open>JSON.stringify\<close> on an account, \<open>parseInt\<close>, and what the two bridge functions
  resolve to or reject with.
\<close>

record download_env = js_env +
  parseAccount :: "string \<Rightarrow> js_error + account"
  stringifyAccount :: "account \<Rightarrow> string"
  parseInt :: "string \<Rightarrow> js_number"
  refreshToken_reply :: "js_error + new_tokens"
  download_reply :: "js_error + download_result"

text \<open>The screen's state as far as downloads go, the secure store, and the effects so
  far.\<close>

record screen =
  downloadingAsins :: "string set"
  audiobooks :: "book list"
  store :: secure_store
  effects :: "effect list"

definition alert :: "string \<Rightarrow> string \<Rightarrow> screen \<Rightarrow> screen" where
  "alert t m s = s\<lparr>effects := effects s @ [Alert t m]\<rparr>"

text \<open>The colours of the theme that \<open>getStatus\<close> uses.\<close>

datatype status_color = ColorInfo | ColorSuccess | ColorTextSecondary

text \<open>The two glyphs that start a status text, in UTF-8: the downwards arrow (U+2B07)
  and the check mark (U+2713).\<close>

definition down_arrow :: string where
  "down_arrow = [CHR 0xE2, CHR 0xAC, CHR 0x87]"

definition check_mark :: string where
  "check_mark = [CHR 0xE2, CHR 0x9C, CHR 0x93]"

text \<open>\<open>getStatus\<close>: the text and the colour of an item's status.\<close>

definition getStatus :: "screen \<Rightarrow> book \<Rightarrow> string \<times> status_color" where
  "getStatus s b =
     (if audible_product_id b \<in> downloadingAsins s then
        (down_arrow @ '' Downloading...'', ColorInfo)
      else if truthy (file_path b) then (check_mark @ '' Downloaded'', ColorSuccess)
      else (''Available'', ColorTextSecondary))"

text \<open>\<open>renderItem\<close>: the download button is rendered, and \<open>handleDownload\<close> can be
  requested, when the item is neither downloaded nor downloading.\<close>

definition isDownloading :: "screen \<Rightarrow> book \<Rightarrow> bool" where
  "isDownloading s item = (audible_product_id item \<in> downloadingAsins s)"

definition isDownloaded :: "book \<Rightarrow> bool" where
  "isDownloaded item = truthy (file_path item)"

definition download_button :: "screen \<Rightarrow> book \<Rightarrow> bool" where
  "download_button s item = (\<not> isDownloaded item \<and> \<not> isDownloading s item)"

text \<open>How a part of \<open>handleDownload\<close> ends: it returns, it throws, or it goes on with a
  value.\<close>

datatype 'a outcome = Returned | Threw js_error | Go 'a

text \<open>
  The inner try block of the token refresh: the call of \<open>refreshToken\<close>, the update of
  the account, and the write of the account to the store. \<open>Inl\<close> is what it throws.
\<close>

definition refresh_account ::
  "download_env \<Rightarrow> account \<Rightarrow> account_identity \<Rightarrow> access_token_info \<Rightarrow> screen
     \<Rightarrow> (js_error + account) \<times> screen" where
  "refresh_account env acc ident tok s0 =
     (let s = s0\<lparr>effects := effects s0 @ [RefreshToken acc]\<rparr> in
      case refreshToken_reply env of
        Inl e \<Rightarrow> (Inl e, s)
      | Inr newTokens \<Rightarrow>
          (case toISOString env
                  (map_option (\<lambda>n. clock env + n * 1000) (parseInt env (new_expires_in newTokens))) of
             Inl e \<Rightarrow> (Inl e, s)
           | Inr newExpiresAt \<Rightarrow>
               (let acc' = acc\<lparr>identity := Some (ident\<lparr>
                              identity_access_token :=
                                Some (tok\<lparr>token := new_access_token newTokens,
                                          expires_at := newExpiresAt\<rparr>),
                              identity_refresh_token := new_refresh_token newTokens\<rparr>)\<rparr>
                in case setItemAsync env ''audible_account'' (stringifyAccount env acc') (store s) of
                     Inl e \<Rightarrow> (Inl e, s)
                   | Inr st \<Rightarrow> (Inr acc', s\<lparr>store := st\<rparr>))))"

text \<open>The check of the token: it is refreshed when it expires in less than five
  minutes; a comparison with \<open>NaN\<close> is false.\<close>

definition check_token :: "download_env \<Rightarrow> account \<Rightarrow> screen \<Rightarrow> account outcome \<times> screen" where
  "check_token env acc s =
     (case identity acc of
        None \<Rightarrow> (Go acc, s)
      | Some ident \<Rightarrow>
          (case identity_access_token ident of
             None \<Rightarrow> (Go acc, s)
           | Some tok \<Rightarrow>
               (case parseDate env (expires_at tok) of
                  None \<Rightarrow> (Go acc, s)
                | Some expiresAt \<Rightarrow>
                    if expiresAt - clock env < 5 * 60 * 1000 then
                      (case refresh_account env acc ident tok s of
                         (Inr acc', s') \<Rightarrow> (Go acc', s')
                       | (Inl e, s') \<Rightarrow>
                           (Returned, alert ''Error'' ''Please log in again - token refresh failed'' s'))
                    else (Go acc, s))))"

text \<open>
  \<open>handleDownload\<close> up to the comment \<open>Mark as downloading\<close>: the account is read from
  the store and parsed, the token is checked, the download directory is read.
\<close>

definition prepare :: "download_env \<Rightarrow> screen \<Rightarrow> (account \<times> string) outcome \<times> screen" where
  "prepare env s =
     (case getItemAsync env (store s) ''audible_account'' of
        Inl e \<Rightarrow> (Threw e, s)
      | Inr accountData \<Rightarrow>
          if \<not> truthy accountData then (Returned, alert ''Error'' ''Please log in first'' s)
          else
            (case parseAccount env (the accountData) of
               Inl e \<Rightarrow> (Threw e, s)
             | Inr acc0 \<Rightarrow>
                 (case check_token env acc0 s of
                    (Returned, s1) \<Rightarrow> (Returned, s1)
                  | (Threw e, s1) \<Rightarrow> (Threw e, s1)
                  | (Go acc, s1) \<Rightarrow>
                      (case getItemAsync env (store s1) DOWNLOAD_PATH_KEY of
                         Inl e \<Rightarrow> (Threw e, s1)
                       | Inr downloadDir \<Rightarrow>
                           if \<not> truthy downloadDir then
                             (Returned, alert ''Download Directory Not Set''
                                ''Please go to Settings and choose a download directory first.'' s1)
                           else (Go (acc, the downloadDir), s1)))))"

text \<open>The marker is set and \<open>downloadAndDecryptBook\<close> is called.\<close>

definition begin_transfer :: "book \<Rightarrow> account \<Rightarrow> string \<Rightarrow> screen \<Rightarrow> screen" where
  "begin_transfer b acc downloadDir s =
     s\<lparr>downloadingAsins := insert (audible_product_id b) (downloadingAsins s),
       effects := effects s @
         [DownloadAndDecryptBook acc (audible_product_id b) downloadDir ''High'']\<rparr>"

text \<open>A number in decimal, as a template literal prints it.\<close>

fun digit :: "nat \<Rightarrow> char" where
  "digit n = char_of (48 + n)"

fun decimal :: "nat \<Rightarrow> string" where
  "decimal n = (if n < 10 then [digit n] else decimal (n div 10) @ [digit (n mod 10)])"

declare decimal.simps [simp del]

text \<open>The catch block.\<close>

definition catch_error :: "js_error \<Rightarrow> screen \<Rightarrow> screen" where
  "catch_error e s =
     alert ''Download Failed''
       (if error_message e = [] then ''Unknown error'' else error_message e) s"

text \<open>After the await of \<open>downloadAndDecryptBook\<close>: the book gets its file path and
  the alert is shown, or the rejection goes to the catch block.\<close>

definition complete :: "download_env \<Rightarrow> book \<Rightarrow> screen \<Rightarrow> screen" where
  "complete env b s =
     (case download_reply env of
        Inl e \<Rightarrow> catch_error e s
      | Inr result \<Rightarrow>
          alert ''Download Complete''
            (title b @ [CHR 0x0A, CHR 0x0A] @ ''Saved to: '' @ outputPath result @ [CHR 0x0A] @
             ''Duration: '' @ decimal (duration result div 3600) @ ''h '' @
             decimal ((duration result mod 3600) div 60) @ ''m'')
            (s\<lparr>audiobooks :=
                 map (\<lambda>x. if audible_product_id x = audible_product_id b
                          then x\<lparr>file_path := Some (outputPath result)\<rparr> else x)
                   (audiobooks s)\<rparr>))"

text \<open>The finally block.\<close>

definition finally_block :: "book \<Rightarrow> screen \<Rightarrow> screen" where
  "finally_block b s = s\<lparr>downloadingAsins := downloadingAsins s - {audible_product_id b}\<rparr>"

text \<open>One invocation of \<open>handleDownload\<close> from its call to its settling.\<close>

definition handleDownload :: "download_env \<Rightarrow> book \<Rightarrow> screen \<Rightarrow> screen" where
  "handleDownload env b s =
     (case prepare env s of
        (Returned, s1) \<Rightarrow> finally_block b s1
      | (Threw e, s1) \<Rightarrow> finally_block b (catch_error e s1)
      | (Go (acc, downloadDir), s1) \<Rightarrow>
          finally_block b (complete env b (begin_transfer b acc downloadDir s1)))"

subsection \<open>Invocations of handleDownload taking turns\<close>

text \<open>
  \<open>handleDownload\<close> is asynchronous: between the press of the button and the marker
  lie its awaited lookups, and between the marker and the finally block lies the
  transfer. The application state is the screen together with the invocations that
  are still at their lookups and those whose transfer is running, each with the item
  it was called with.
\<close>

record app =
  ui :: screen
  preparing :: "book list"
  transferring :: "book list"

text \<open>
  What can happen next: a rendered download button is pressed; an invocation gets
  through its lookups (and marks the title and starts the transfer, or returns, or
  throws); a transfer settles; the list of books is loaded again. The lookups of one
  invocation are taken as one turn.
\<close>

datatype event =
    Press book
  | Prepared book download_env
  | Completed book download_env
  | Reload "book list"

fun app_step :: "app \<Rightarrow> event \<Rightarrow> app option" where
  "app_step a (Press item) =
     (if item \<in> set (audiobooks (ui a)) \<and> download_button (ui a) item
      then Some (a\<lparr>preparing := item # preparing a\<rparr>)
      else None)"
| "app_step a (Prepared item env) =
     (if item \<in> set (preparing a) then
        (case prepare env (ui a) of
           (Go (acc, downloadDir), s1) \<Rightarrow>
             Some \<lparr>ui = begin_transfer item acc downloadDir s1,
                   preparing = remove1 item (preparing a),
                   transferring = item # transferring a\<rparr>
         | (Returned, s1) \<Rightarrow>
             Some \<lparr>ui = finally_block item s1,
                   preparing = remove1 item (preparing a),
                   transferring = transferring a\<rparr>
         | (Threw e, s1) \<Rightarrow>
             Some \<lparr>ui = finally_block item (catch_error e s1),
                   preparing = remove1 item (preparing a),
                   transferring = transferring a\<rparr>)
      else None)"
| "app_step a (Completed item env) =
     (if item \<in> set (transferring a) then
        Some \<lparr>ui = finally_block item (complete env item (ui a)),
              preparing = preparing a,
              transferring = remove1 item (transferring a)\<rparr>
      else None)"
| "app_step a (Reload books) = Some (a\<lparr>ui := (ui a)\<lparr>audiobooks := books\<rparr>\<rparr>)"

text \<open>A run of events; \<open>None\<close> when one of them cannot happen.\<close>

fun run :: "app \<Rightarrow> event list \<Rightarrow> app option" where
  "run a [] = Some a"
| "run a (e # es) = (case app_step a e of None \<Rightarrow> None | Some a' \<Rightarrow> run a' es)"

text \<open>The number of running transfers of a title.\<close>

definition active_transfers :: "app \<Rightarrow> string \<Rightarrow> nat" where
  "active_transfers a asin =
     length (filter (\<lambda>b. audible_product_id b = asin) (transferring a))"

text \<open>
  Requests that are not overtaken: the invocation started by a press gets through its
  lookups before anything else happens.
\<close>

datatype request_event =
    Request book download_env
  | Finish book download_env
  | Refresh "book list"

fun expand :: "request_event \<Rightarrow> event list" where
  "expand (Request item env) = [Press item, Prepared item env]"
| "expand (Finish item env) = [Completed item env]"
| "expand (Refresh books) = [Reload books]"

text \<open>The invariant of such runs: no invocation is at its lookups, the running
  transfers are of different titles, and each of their titles is marked.\<close>

definition orderly :: "app \<Rightarrow> bool" where
  "orderly a =
     (preparing a = [] \<and>
      distinct (map audible_product_id (transferring a)) \<and>
      (\<forall>b \<in> set (transferring a). audible_product_id b \<in> downloadingAsins (ui a)))"

text \<open>Example data: a signed-in user with a download directory, one book in the
  library, and surroundings in which the token is fresh and the transfer succeeds.\<close>

definition example_account :: account where
  "example_account =
     \<lparr>account_id = ''amzn1.account.X'',
      identity = Some \<lparr>identity_access_token =
                         Some \<lparr>token = ''Atna|a'', expires_at = ''2026-11-02T12:00:00.000Z''\<rparr>,
                       identity_refresh_token = ''Atnr|r''\<rparr>\<rparr>"

definition example_env :: download_env where
  "example_env =
     \<lparr>clock = 1000000, parseDate = (\<lambda>s. Some 4600000),
      isoString = (\<lambda>t. ''2026-11-02T13:00:00.000Z''),
      read_fails = (\<lambda>k. False), write_fails = (\<lambda>k. False),
      parseAccount = (\<lambda>s. if s = ''account'' then Inr example_account
                            else Inl (JsError ''Unexpected token'')),
      stringifyAccount = (\<lambda>a. ''account''),
      parseInt = (\<lambda>s. Some 3600),
      refreshToken_reply = Inl (JsError ''network error''),
      download_reply = Inr \<lparr>outputPath = ''/books/B07T2F8VJM.m4b'', duration = 9783\<rparr>\<rparr>"

definition example_book :: book where
  "example_book =
     \<lparr>audible_product_id = ''B07T2F8VJM'', title = ''A Grown-Up Guide to Dinosaurs'',
      file_path = None\<rparr>"

definition example_screen :: screen where
  "example_screen =
     \<lparr>downloadingAsins = {}, audiobooks = [example_book],
      store = [''audible_account'' \<mapsto> ''account'', ''download_path'' \<mapsto> ''/books''],
      effects = []\<rparr>"

definition signed_out_screen :: screen where
  "signed_out_screen = example_screen\<lparr>store := [''download_path'' \<mapsto> ''/books'']\<rparr>"

definition example_app :: app where
  "example_app = \<lparr>ui = example_screen, preparing = [], transferring = []\<rparr>"

definition busy_app :: app where
  "busy_app =
     \<lparr>ui = example_screen\<lparr>downloadingAsins := {''B07T2F8VJM''}\<rparr>, preparing = [],
      transferring = [example_book]\<rparr>"

section \<open>Properties of the bridge module\<close>







section \<open>Properties of the key hand-over\<close>

lemma hex_value_digit: "n < 16 \<Longrightarrow> hex_value (hex_digit n) = Some n"
  by (auto simp: hex_value_def hex_digit_def Let_def)

lemma unat_byte_div: "unat (b :: byte) div 16 < 16"
  using unsigned_less [of b, where 'a = nat] by simp

lemma hex_decode_encode: "hex_decode (hex_encode bs) = Some bs"
  by (induction bs) (simp_all add: hex_value_digit unat_byte_div)

lemma length_hex_encode: "length (hex_encode bs) = 2 * length bs"
  by (induction bs) simp_all

lemma key_arguments_decrypt:
  "key_arguments (DecryptAAX src dst activationBytes) = [activationBytes]"
  by (simp add: key_arguments_def)

lemma hex_encode_digits: "list_all is_hex_char (hex_encode bs)"
proof (induction bs)
  case Nil
  then show ?case by simp
next
  case (Cons b bs)
  have "unat b mod 16 < 16" by simp
  then show ?case
    using Cons by (simp add: is_hex_char_def hex_value_digit unat_byte_div)
qed

text \<open>
  C2 (as amended). \<open>decryptAAX\<close> hands the native decrypt exactly three string fields,
  those \<open>rust_decrypt_aax\<close> is declared with: the input path, the output path and one
  key string \<open>activation_bytes\<close>. An activation key (the first shape) is handed over
  as its hex string, from which the key is recovered; for the four-byte key this is the
  documented format of eight hex characters, which the hex string of a sixteen-byte key
  is not. No call of \<open>decryptAAX\<close> carries the two strings of a key with its iv.
\<close>

theorem decrypt_key_handoff:
  "request (DecryptAAX src dst activationBytes) =
     Some (NativeDecryptAAX,
       [(''input_path'', JStr src), (''output_path'', JStr dst),
        (''activation_bytes'', JStr activationBytes)]) \<and>
   map_option (map fst \<circ> snd) (request (DecryptAAX src dst activationBytes)) =
     Some rust_decrypt_aax_parameters \<and>
   key_arguments (DecryptAAX src dst (hex_encode k)) = key_strings (TypeA k) \<and>
   hex_decode (hex_encode k) = Some k \<and>
   (length k = 4 \<longrightarrow> activation_bytes_format (hex_encode k)) \<and>
   (length key = 16 \<longrightarrow> \<not> activation_bytes_format (hex_encode key)) \<and>
   key_arguments (DecryptAAX src dst activationBytes) \<noteq> key_strings (TypeB key iv)"
  by (simp add: key_arguments_decrypt hex_decode_encode length_hex_encode hex_encode_digits
      rust_decrypt_aax_parameters_def activation_bytes_format_def)

theorem decrypt_key_handoff_witness:
  "length example_activation = 4 \<and>
   hex_encode example_activation = ''1ceb00da'' \<and>
   activation_bytes_format (hex_encode example_activation) \<and>
   key_arguments (DecryptAAX ''/a.aax'' ''/a.m4b'' (hex_encode example_activation)) =
     key_strings (TypeA example_activation) \<and>
   length example_key = 16 \<and>
   \<not> activation_bytes_format (hex_encode example_key)"
proof -
  have l: "length example_activation = 4" "length example_key = 16"
    by (simp_all add: example_activation_def example_key_def)
  have h: "hex_encode example_activation = ''1ceb00da''"
    by code_simp
  show ?thesis
    using l h decrypt_key_handoff [of "''/a.aax''" "''/a.m4b''" "hex_encode example_activation"
        example_activation example_key example_iv]
    by simp
qed

text \<open>
  C2 as stated fails for the second shape: no arguments of \<open>decryptAAX\<close> hand over the
  key and the iv of the example pair.
\<close>

theorem decrypt_key_handoff_counterexample:
  "\<not> (\<exists>src dst activationBytes.
        key_arguments (DecryptAAX src dst activationBytes) =
        key_strings (TypeB example_key example_iv))"
  by (simp add: key_arguments_decrypt)

section \<open>Properties of the key classification\<close>

lemma parse_key_material_payload:
  "parse_key_material (voucher_payload key iv) =
     (case iv of
        None \<Rightarrow> if length key = 4 then Inr (TypeA key) else Inl MalformedVoucherError
      | Some v \<Rightarrow>
          if length key = 16 \<and> length v = 16 then Inr (TypeB key v)
          else Inl MalformedVoucherError)"
  by (simp add: parse_key_material_def voucher_payload_def hex_decode_encode split: option.splits)

lemma parse_key_material_lengths:
  "parse_key_material p = Inr km \<Longrightarrow>
     (case km of TypeA k \<Rightarrow> length k = 4 | TypeB k v \<Rightarrow> length k = 16 \<and> length v = 16)"
  by (auto simp: parse_key_material_def split: option.splits json.splits if_splits)

text \<open>
  C7. \<open>parse_key_material\<close> classifies by byte length: a payload with a 4-byte key and
  no iv gives the first shape, one with a 16-byte key and a 16-byte iv the second, and
  every other combination of lengths (those the detection table calls \<open>Unknown\<close>) fails
  with \<open>MalformedVoucherError\<close>; whatever the payload, a classified key material has
  exactly these lengths.
\<close>

theorem parse_key_material_classifies:
  "(length key = 4 \<longrightarrow> parse_key_material (voucher_payload key None) = Inr (TypeA key)) \<and>
   (length key = 16 \<and> length v = 16 \<longrightarrow>
      parse_key_material (voucher_payload key (Some v)) = Inr (TypeB key v)) \<and>
   (detect_file_type (length key) (map_option length iv) = Unknown \<longrightarrow>
      parse_key_material (voucher_payload key iv) = Inl MalformedVoucherError) \<and>
   (\<forall>k. parse_key_material p = Inr (TypeA k) \<longrightarrow> length k = 4) \<and>
   (\<forall>k w. parse_key_material p = Inr (TypeB k w) \<longrightarrow> length k = 16 \<and> length w = 16)"
  using parse_key_material_lengths [of p]
  by (auto simp: parse_key_material_payload detect_file_type_def split: option.splits if_splits)

theorem parse_key_material_classifies_witness:
  "length example_activation = 4 \<and>
   parse_key_material (voucher_payload example_activation None) = Inr (TypeA example_activation) \<and>
   length example_key = 16 \<and> length example_iv = 16 \<and>
   parse_key_material (voucher_payload example_key (Some example_iv)) =
     Inr (TypeB example_key example_iv) \<and>
   detect_file_type (length example_key) (map_option length None) = Unknown \<and>
   parse_key_material (voucher_payload example_key None) = Inl MalformedVoucherError"
  using parse_key_material_classifies [of example_activation example_iv None
      "voucher_payload example_activation None"]
    parse_key_material_classifies [of example_key example_iv None
      "voucher_payload example_key None"]
  by (simp add: example_activation_def example_key_def example_iv_def detect_file_type_def)

section \<open>Properties of the resumable stream\<close>

lemma length_write_at:
  "p \<le> length f \<Longrightarrow> length (write_at p bs f) = max (length f) (p + length bs)"
  by (auto simp: write_at_def)

lemma stream_inv_flush: "stream_inv s \<Longrightarrow> stream_inv (flush now s)"
  by (auto simp: stream_inv_def flush_def Let_def length_write_at split: option.splits)

lemma stream_inv_receive_chunk:
  assumes "stream_inv s"
  shows "stream_inv (receive_chunk now c s)"
proof -
  have "stream_inv (s\<lparr>unflushed := unflushed s @ c\<rparr>)"
    using assms by (simp add: stream_inv_def split: option.splits)
  then show ?thesis
    by (simp add: receive_chunk_def Let_def stream_inv_flush)
qed

lemma stream_inv_interrupt: "stream_inv s \<Longrightarrow> stream_inv (interrupt n s)"
  by (auto simp: stream_inv_def interrupt_def length_write_at split: option.splits)

lemma stream_inv_start: "start url hs now resp s = Inr s' \<Longrightarrow> stream_inv s'"
  by (auto simp: start_def stream_inv_def new_transfer_def load_state_def
      split: option.splits if_splits)

lemma stream_inv_step: "stream_inv s \<Longrightarrow> stream_inv (stream_step s e)"
  by (cases e) (auto simp: stream_inv_flush stream_inv_receive_chunk stream_inv_interrupt
      dest: stream_inv_start split: sum.splits)

lemma stream_inv_run: "stream_inv s \<Longrightarrow> stream_inv (foldl stream_step s es)"
  by (induction es arbitrary: s) (simp_all add: stream_inv_step)

lemma stream_inv_durable: "stream_inv s \<Longrightarrow> durable s"
  by (auto simp: stream_inv_def durable_def split: option.splits)

text \<open>
  C5. Once a transfer has started, whatever follows (chunks, flushes, interruptions at
  any point, restarts), the persisted \<open>bytes_written\<close> never exceeds the length of the
  destination file. And a persisted state whose \<open>bytes_written\<close> is beyond the file's
  length is treated as corrupt on load: no range is requested, and the transfer opens
  from byte zero.
\<close>

theorem bytes_written_durable:
  "(start url hs now resp s0 = Inr s1 \<longrightarrow> durable (foldl stream_step s1 es)) \<and>
   (state_file s0 = Some st \<and> length (dest_file s0) < bytes_written st \<longrightarrow>
      load_state s0 = None \<and> range_start s0 = None \<and>
      (status resp = 200 \<longrightarrow>
         (\<exists>s'. start url hs now resp s0 = Inr s' \<and> write_offset s' = 0 \<and>
               map_option bytes_written (state_file s') = Some 0)))"
  by (auto simp: stream_inv_durable stream_inv_run stream_inv_start load_state_def range_start_def
      start_def new_transfer_def)

theorem bytes_written_durable_witness:
  "start ''u'' [] 7 full_content truncated_stream =
     Inr (new_transfer ''u'' [] 7 full_content truncated_stream) \<and>
   durable (foldl stream_step (new_transfer ''u'' [] 7 full_content truncated_stream)
     [Chunk 8 [9, 9], Interrupt 1, Start ''u'' [] 9 partial_content, Chunk 10 [9, 9, 9],
      TimerFlush 11]) \<and>
   state_file truncated_stream = Some example_state \<and>
   length (dest_file truncated_stream) < bytes_written example_state \<and>
   load_state truncated_stream = None \<and>
   status full_content = 200"
  using bytes_written_durable [of "''u''" "[]" 7 full_content truncated_stream
      "new_transfer ''u'' [] 7 full_content truncated_stream"
      "[Chunk 8 [9, 9], Interrupt 1, Start ''u'' [] 9 partial_content, Chunk 10 [9, 9, 9],
        TimerFlush 11]" example_state]
  by (simp add: start_def load_state_def truncated_stream_def example_stream_def
      example_state_def full_content_def)




section \<open>Properties of the progress tracker\<close>

lemma counted_record_bytes: "counted (record_bytes now d t) = counted t + d"
  by (simp add: record_bytes_def Let_def)

lemma counted_report: "counted (fst (report now d t)) = counted t + d"
  by (simp add: report_def Let_def counted_record_bytes)

lemma report_out: "p \<in> set (snd (report now d t)) \<Longrightarrow> bytes_done p = counted t + d"
  by (auto simp: report_def Let_def snapshot_def counted_record_bytes split: if_splits)

lemma emissions_lower: "p \<in> set (emissions t ticks) \<Longrightarrow> counted t \<le> bytes_done p"
proof (induction ticks arbitrary: t)
  case Nil
  then show ?case by simp
next
  case (Cons tick ticks)
  obtain now d where tick: "tick = (now, d)" by (cases tick)
  obtain t' out where r: "report now d t = (t', out)" by (cases "report now d t")
  from Cons.prems tick r have "p \<in> set out \<or> p \<in> set (emissions t' ticks)" by simp
  then show ?case
  proof
    assume "p \<in> set out"
    with r report_out [of p now d t] show ?thesis by simp
  next
    assume "p \<in> set (emissions t' ticks)"
    then have "counted t' \<le> bytes_done p" by (rule Cons.IH)
    moreover from r counted_report [of now d t] have "counted t' = counted t + d" by simp
    ultimately show ?thesis by simp
  qed
qed

text \<open>
  C8. For one task, whatever its report ticks, the \<open>bytes_done\<close> values of the
  successive emissions are non-decreasing.
\<close>

theorem bytes_done_monotone: "sorted (map bytes_done (emissions t ticks))"
proof (induction ticks arbitrary: t)
  case Nil
  then show ?case by simp
next
  case (Cons tick ticks)
  obtain now d where tick: "tick = (now, d)" by (cases tick)
  obtain t' out where r: "report now d t = (t', out)" by (cases "report now d t")
  have out: "\<forall>p \<in> set out. bytes_done p = counted t + d"
    using r report_out [of _ now d t] by simp
  have t': "counted t' = counted t + d"
    using r counted_report [of now d t] by simp
  have "length out \<le> 1" using r by (auto simp: report_def Let_def split: if_splits)
  then have "sorted (map bytes_done out)" by (cases out) (simp_all add: le_Suc_eq)
  moreover have "sorted (map bytes_done (emissions t' ticks))" by (rule Cons.IH)
  moreover have "\<forall>x \<in> set out. \<forall>y \<in> set (emissions t' ticks). bytes_done x \<le> bytes_done y"
    using out t' emissions_lower [of _ t' ticks] by auto
  ultimately show ?case using tick r by (auto simp: sorted_append)
qed

theorem bytes_done_monotone_witness:
  "map bytes_done (emissions (new_tracker 0 100)
     [(0, 0), (50, 10), (100, 10), (260, 10), (300, 5), (1200, 0), (1250, 65)]) =
     [0, 30, 35, 100] \<and>
   sorted [0, 30, 35, 100::nat]"
proof -
  have e: "map bytes_done (emissions (new_tracker 0 100)
     [(0, 0), (50, 10), (100, 10), (260, 10), (300, 5), (1200, 0), (1250, 65)]) =
     [0, 30, 35, 100]"
    by (simp add: new_tracker_def report_def record_bytes_def should_emit_def snapshot_def
        sample_window_def sample_count_def emit_interval_def Let_def)
  show ?thesis
    using e bytes_done_monotone [of "new_tracker 0 100"
        "[(0, 0), (50, 10), (100, 10), (260, 10), (300, 5), (1200, 0), (1250, 65)]"]
    by simp
qed

section \<open>Properties of the authentication hook\<close>

text \<open>
  C9. When the store holds an access token and a refresh token and no expiry timestamp
  (and the four reads succeed), \<open>checkAuthentication\<close> finds the token neither expired
  nor expiring soon, returns true with the user authenticated and \<open>expires_in\<close> set to
  3600, and makes no call to the bridge's token refresh; the store is left as it was.
\<close>

theorem checkAuthentication_no_expiry:
  assumes "\<not> read_fails env ACCESS_TOKEN" and "\<not> read_fails env REFRESH_TOKEN"
    and "\<not> read_fails env TOKEN_EXPIRES_AT" and "\<not> read_fails env LOCALE_CODE"
    and "truthy (secure_store w ACCESS_TOKEN)" and "truthy (secure_store w REFRESH_TOKEN)"
    and "secure_store w TOKEN_EXPIRES_AT = None"
  shows "\<not> isExpired env (secure_store w TOKEN_EXPIRES_AT) \<and>
    \<not> isExpiringSoon env (secure_store w TOKEN_EXPIRES_AT) \<and>
    checkAuthentication env w =
      (True, w\<lparr>auth := \<lparr>isAuthenticated = True, isLoading = False, error = None,
         tokens = Some \<lparr>access_token = the (secure_store w ACCESS_TOKEN),
           refresh_token = the (secure_store w REFRESH_TOKEN),
           expires_in = Some 3600, token_type = ''Bearer''\<rparr>,
         localeCode = secure_store w LOCALE_CODE\<rparr>\<rparr>) \<and>
    bridge_calls (snd (checkAuthentication env w)) = bridge_calls w \<and>
    secure_store (snd (checkAuthentication env w)) = secure_store w"
proof -
  have reads: "read_tokens env (secure_store w) =
      Inr (secure_store w ACCESS_TOKEN, secure_store w REFRESH_TOKEN, None,
           secure_store w LOCALE_CODE)"
    using assms by (simp add: read_tokens_def getItemAsync_def)
  have fresh: "\<not> isExpired env None" "\<not> isExpiringSoon env None"
    by (simp_all add: isExpired_def isExpiringSoon_def)
  have result: "checkAuthentication env w =
      (True, w\<lparr>auth := \<lparr>isAuthenticated = True, isLoading = False, error = None,
         tokens = Some \<lparr>access_token = the (secure_store w ACCESS_TOKEN),
           refresh_token = the (secure_store w REFRESH_TOKEN),
           expires_in = Some 3600, token_type = ''Bearer''\<rparr>,
         localeCode = secure_store w LOCALE_CODE\<rparr>\<rparr>)"
    using assms(5,6) fresh by (simp add: checkAuthentication_def reads Let_def)
  show ?thesis
    using fresh assms(7) by (simp add: result)
qed

theorem checkAuthentication_no_expiry_witness:
  "\<not> read_fails example_auth_env ACCESS_TOKEN \<and>
   truthy (secure_store example_auth_world ACCESS_TOKEN) \<and>
   truthy (secure_store example_auth_world REFRESH_TOKEN) \<and>
   secure_store example_auth_world TOKEN_EXPIRES_AT = None \<and>
   fst (checkAuthentication example_auth_env example_auth_world) = True \<and>
   tokens (auth (snd (checkAuthentication example_auth_env example_auth_world))) =
     Some \<lparr>access_token = ''Atna|a'', refresh_token = ''Atnr|r'', expires_in = Some 3600,
           token_type = ''Bearer''\<rparr> \<and>
   bridge_calls (snd (checkAuthentication example_auth_env example_auth_world)) = []"
proof -
  have r: "\<not> read_fails example_auth_env k" for k
    by (simp add: example_auth_env_def)
  have s: "secure_store example_auth_world ACCESS_TOKEN = Some ''Atna|a''"
    "secure_store example_auth_world REFRESH_TOKEN = Some ''Atnr|r''"
    "secure_store example_auth_world TOKEN_EXPIRES_AT = None"
    by (simp_all add: example_auth_world_def ACCESS_TOKEN_def REFRESH_TOKEN_def
        TOKEN_EXPIRES_AT_def LOCALE_CODE_def)
  have b: "bridge_calls example_auth_world = []"
    by (simp add: example_auth_world_def)
  show ?thesis
    using checkAuthentication_no_expiry [of example_auth_env example_auth_world] r s b
    by simp
qed

section \<open>Properties of the library screen\<close>

text \<open>
  C4. When the store has no \<open>audible_account\<close> entry (the read gives null, or an empty
  string), \<open>handleDownload\<close> shows the alert asking the user to log in and returns
  through its finally block: it calls neither \<open>refreshToken\<close> nor
  \<open>downloadAndDecryptBook\<close>.
\<close>

theorem handleDownload_auth_required:
  assumes "getItemAsync env (store s) ''audible_account'' = Inr accountData"
    and "\<not> truthy accountData"
  shows "handleDownload env b s = finally_block b (alert ''Error'' ''Please log in first'' s) \<and>
         effects (handleDownload env b s) = effects s @ [Alert ''Error'' ''Please log in first'']"
  using assms by (simp add: handleDownload_def prepare_def finally_block_def alert_def)

theorem handleDownload_auth_required_witness:
  "getItemAsync example_env (store signed_out_screen) ''audible_account'' = Inr None \<and>
   \<not> truthy None \<and>
   effects (handleDownload example_env example_book signed_out_screen) =
     [Alert ''Error'' ''Please log in first'']"
proof -
  have r: "getItemAsync example_env (store signed_out_screen) ''audible_account'' = Inr None"
    by (simp add: getItemAsync_def example_env_def signed_out_screen_def example_screen_def)
  have e: "effects signed_out_screen = []"
    by (simp add: signed_out_screen_def example_screen_def)
  show ?thesis
    using r e handleDownload_auth_required [OF r, of example_book, THEN conjunct2] by simp
qed

lemma downloadingAsins_alert [simp]: "downloadingAsins (alert t m s) = downloadingAsins s"
  by (simp add: alert_def)

lemma refresh_account_asins:
  "refresh_account env acc ident tok s = (r, s') \<Longrightarrow> downloadingAsins s' = downloadingAsins s"
  by (auto simp: refresh_account_def Let_def split: sum.splits)

lemma check_token_asins:
  "check_token env acc s = (r, s') \<Longrightarrow> downloadingAsins s' = downloadingAsins s"
  by (auto simp: check_token_def split: option.splits prod.splits sum.splits if_splits
      dest: refresh_account_asins)

lemma prepare_asins:
  "prepare env s = (r, s') \<Longrightarrow> downloadingAsins s' = downloadingAsins s"
  by (auto simp: prepare_def split: sum.splits prod.splits outcome.splits if_splits
      dest: check_token_asins)

lemma downloadingAsins_catch_error [simp]:
  "downloadingAsins (catch_error e s) = downloadingAsins s"
  by (simp add: catch_error_def)

lemma downloadingAsins_complete [simp]:
  "downloadingAsins (complete env b s) = downloadingAsins s"
  by (simp add: complete_def split: sum.splits)

lemma downloadingAsins_finally_block [simp]:
  "downloadingAsins (finally_block b s) = downloadingAsins s - {audible_product_id b}"
  by (simp add: finally_block_def)

lemma downloadingAsins_begin_transfer [simp]:
  "downloadingAsins (begin_transfer b acc d s) = insert (audible_product_id b) (downloadingAsins s)"
  by (simp add: begin_transfer_def)

text \<open>
  C10. After an invocation of \<open>handleDownload\<close> has settled, whatever the surroundings
  and whichever way it ended, the book's product id is not in \<open>downloadingAsins\<close>; the
  same holds after each turn that settles an invocation when invocations interleave.
\<close>

theorem marker_removed:
  "audible_product_id b \<notin> downloadingAsins (handleDownload env b s) \<and>
   (case app_step a (Completed b env) of
      None \<Rightarrow> True
    | Some a' \<Rightarrow> audible_product_id b \<notin> downloadingAsins (ui a')) \<and>
   (case app_step a (Prepared b env) of
      None \<Rightarrow> True
    | Some a' \<Rightarrow>
        (case fst (prepare env (ui a)) of
           Go v \<Rightarrow> b \<in> set (transferring a')
         | _ \<Rightarrow> audible_product_id b \<notin> downloadingAsins (ui a')))"
  by (simp add: handleDownload_def split: prod.splits outcome.splits)

theorem marker_removed_witness:
  "audible_product_id example_book \<notin>
     downloadingAsins (handleDownload example_env example_book example_screen) \<and>
   audible_product_id example_book \<notin>
     downloadingAsins (handleDownload example_env example_book signed_out_screen) \<and>
   audible_product_id example_book \<in> downloadingAsins (ui busy_app) \<and>
   map_option (\<lambda>a. audible_product_id example_book \<in> downloadingAsins (ui a))
     (app_step busy_app (Completed example_book example_env)) = Some False \<and>
   map_option (\<lambda>a. audible_product_id example_book \<in> downloadingAsins (ui a))
     (app_step \<lparr>ui = signed_out_screen, preparing = [example_book], transferring = []\<rparr>
        (Prepared example_book example_env)) = Some False"
proof -
  have p: "fst (prepare example_env signed_out_screen) = Returned"
    by (simp add: prepare_def getItemAsync_def example_env_def signed_out_screen_def
        example_screen_def)
  show ?thesis
    using p marker_removed [of example_book example_env example_screen busy_app]
      marker_removed [of example_book example_env signed_out_screen
        "\<lparr>ui = signed_out_screen, preparing = [example_book], transferring = []\<rparr>"]
    by (simp add: busy_app_def example_book_def split: option.splits prod.splits)
qed

subsection \<open>Interleaved invocations\<close>

lemma run_append:
  "run a (xs @ ys) = (case run a xs of None \<Rightarrow> None | Some a' \<Rightarrow> run a' ys)"
  by (induction xs arbitrary: a) (simp_all split: option.splits)

lemma distinct_map_remove1:
  "distinct (map f xs) \<Longrightarrow> distinct (map f (remove1 x xs))"
  by (induction xs) (auto simp: image_iff dest: notin_set_remove1)

lemma distinct_map_remove1_other:
  "distinct (map f xs) \<Longrightarrow> x \<in> set xs \<Longrightarrow> y \<in> set (remove1 x xs) \<Longrightarrow> f y \<noteq> f x"
  by (induction xs) (auto simp: image_iff dest: notin_set_remove1 split: if_splits)

lemma distinct_map_filter_length:
  "distinct (map f xs) \<Longrightarrow> length (filter (\<lambda>x. f x = y) xs) \<le> 1"
  by (induction xs) (auto simp: image_iff filter_empty_conv)

lemma orderly_press_prepared:
  assumes "orderly a" and "run a [Press item, Prepared item env] = Some a'"
  shows "orderly a'"
proof -
  from assms(1) have pre: "preparing a = []"
    and dist: "distinct (map audible_product_id (transferring a))"
    and marked: "\<And>b. b \<in> set (transferring a) \<Longrightarrow>
           audible_product_id b \<in> downloadingAsins (ui a)"
    by (simp_all add: orderly_def)
  from assms(2) have "download_button (ui a) item"
    by (auto split: if_splits)
  then have fresh: "audible_product_id item \<notin> downloadingAsins (ui a)"
    by (simp add: download_button_def isDownloading_def)
  have other: "audible_product_id b \<noteq> audible_product_id item"
    if "b \<in> set (transferring a)" for b
    using marked [OF that] fresh by auto
  obtain r s1 where p: "prepare env (ui a) = (r, s1)"
    by (cases "prepare env (ui a)")
  then have d: "downloadingAsins s1 = downloadingAsins (ui a)"
    by (rule prepare_asins)
  show ?thesis
  proof (cases r)
    case Returned
    with assms(2) p pre
    have a': "a' = \<lparr>ui = finally_block item s1, preparing = [], transferring = transferring a\<rparr>"
      by (auto split: if_splits)
    show ?thesis
      using dist marked other d by (simp add: a' orderly_def)
  next
    case (Threw e)
    with assms(2) p pre
    have a': "a' = \<lparr>ui = finally_block item (catch_error e s1), preparing = [],
                     transferring = transferring a\<rparr>"
      by (auto split: if_splits)
    show ?thesis
      using dist marked other d by (simp add: a' orderly_def)
  next
    case (Go v)
    obtain acc dir where v: "v = (acc, dir)" by (cases v)
    with Go assms(2) p pre
    have a': "a' = \<lparr>ui = begin_transfer item acc dir s1, preparing = [],
                     transferring = item # transferring a\<rparr>"
      by (auto split: if_splits)
    have "audible_product_id item \<notin> audible_product_id ` set (transferring a)"
    proof
      assume "audible_product_id item \<in> audible_product_id ` set (transferring a)"
      then obtain b where b: "b \<in> set (transferring a)"
        and eq: "audible_product_id item = audible_product_id b"
        by (rule imageE)
      from other [OF b] eq show False by simp
    qed
    then show ?thesis
      using dist marked d by (simp add: a' orderly_def)
  qed
qed

lemma orderly_completed:
  assumes "orderly a" and "run a [Completed item env] = Some a'"
  shows "orderly a'"
proof -
  from assms(1) have pre: "preparing a = []"
    and dist: "distinct (map audible_product_id (transferring a))"
    and marked: "\<And>b. b \<in> set (transferring a) \<Longrightarrow>
           audible_product_id b \<in> downloadingAsins (ui a)"
    by (simp_all add: orderly_def)
  from assms(2) have item: "item \<in> set (transferring a)"
    and a': "a' = \<lparr>ui = finally_block item (complete env item (ui a)),
                    preparing = preparing a, transferring = remove1 item (transferring a)\<rparr>"
    by (auto split: if_splits)
  have 1: "distinct (map audible_product_id (remove1 item (transferring a)))"
    using dist by (rule distinct_map_remove1)
  have 2: "audible_product_id b \<in> downloadingAsins (ui a) \<and>
           audible_product_id b \<noteq> audible_product_id item"
    if "b \<in> set (remove1 item (transferring a))" for b
    using that marked [of b] distinct_map_remove1_other [OF dist item that]
    by (auto dest: notin_set_remove1)
  show ?thesis
    using pre 1 2 by (simp add: a' orderly_def)
qed

lemma orderly_reload:
  assumes "orderly a" and "run a [Reload books] = Some a'"
  shows "orderly a'"
  using assms by (auto simp: orderly_def)

lemma orderly_expand:
  assumes "orderly a" and "run a (expand r) = Some a'"
  shows "orderly a'"
proof (cases r)
  case (Request item env)
  with assms show ?thesis
    using orderly_press_prepared [of a item env a'] by simp
next
  case (Finish item env)
  with assms show ?thesis
    using orderly_completed [of a item env a'] by simp
next
  case (Refresh books)
  with assms show ?thesis
    using orderly_reload [of a books a'] by simp
qed

lemma orderly_run:
  "orderly a \<Longrightarrow> run a (concat (map expand rs)) = Some a' \<Longrightarrow> orderly a'"
proof (induction rs arbitrary: a)
  case Nil
  then show ?case by simp
next
  case (Cons r rs)
  from Cons.prems(2) obtain a1 where 1: "run a (expand r) = Some a1"
    and 2: "run a1 (concat (map expand rs)) = Some a'"
    by (auto simp: run_append split: option.splits)
  from Cons.prems(1) 1 have "orderly a1" by (rule orderly_expand)
  then show ?case using 2 by (rule Cons.IH)
qed

lemma prepare_example:
  "prepare example_env example_screen = (Go (example_account, ''/books''), example_screen)"
  by (simp add: prepare_def getItemAsync_def example_env_def example_screen_def check_token_def
      example_account_def DOWNLOAD_PATH_KEY_def)

text \<open>The turns of one invocation, taken without anything in between, are
  \<open>handleDownload\<close>.\<close>

lemma handleDownload_as_turns:
  assumes "b \<in> set (audiobooks s)" and "download_button s b"
  shows "map_option ui
      (run \<lparr>ui = s, preparing = [], transferring = []\<rparr>
         (Press b # Prepared b env #
            (case fst (prepare env s) of Go v \<Rightarrow> [Completed b env] | _ \<Rightarrow> []))) =
    Some (handleDownload env b s)"
  using assms by (auto simp: handleDownload_def split: prod.splits outcome.splits)

lemma press_example:
  "app_step \<lparr>ui = example_screen, preparing = ps, transferring = ts\<rparr> (Press example_book) =
     Some \<lparr>ui = example_screen, preparing = example_book # ps, transferring = ts\<rparr>"
  by (simp add: example_screen_def example_book_def download_button_def
      isDownloaded_def isDownloading_def)

lemma prepare_example_store:
  assumes "store s = store example_screen"
  shows "prepare example_env s = (Go (example_account, ''/books''), s)"
proof -
  have "store s ''audible_account'' = Some ''account''" "store s ''download_path'' = Some ''/books''"
    using assms by (simp_all add: example_screen_def)
  then show ?thesis
    by (simp add: prepare_def getItemAsync_def example_env_def check_token_def
        example_account_def DOWNLOAD_PATH_KEY_def)
qed

lemma prepared_example:
  assumes "store s = store example_screen" and "example_book \<in> set ps"
  shows "app_step \<lparr>ui = s, preparing = ps, transferring = ts\<rparr>
           (Prepared example_book example_env) =
         Some \<lparr>ui = begin_transfer example_book example_account ''/books'' s,
               preparing = remove1 example_book ps, transferring = example_book # ts\<rparr>"
  using assms by (simp add: prepare_example_store)

lemma store_begin_transfer: "store (begin_transfer b acc d s) = store s"
  by (simp add: begin_transfer_def)

lemma request_example:
  "run example_app (concat (map expand [Request example_book example_env])) =
     Some \<lparr>ui = begin_transfer example_book example_account ''/books'' example_screen,
           preparing = [], transferring = [example_book]\<rparr>"
  by (simp add: example_app_def press_example prepared_example del: app_step.simps)

text \<open>
  What the marker and the render condition achieve: as long as each invocation gets
  through its lookups before the next event is handled, at most one transfer of a title
  is running, and the button can be pressed only for a title that has no running
  transfer.
\<close>

lemma orderly_single_transfer:
  assumes "preparing a0 = []" and "transferring a0 = []"
    and "run a0 (concat (map expand rs)) = Some a"
  shows "active_transfers a asin \<le> 1 \<and>
    (\<forall>item a'. app_step a (Press item) = Some a' \<longrightarrow>
       \<not> isDownloaded item \<and> \<not> isDownloading (ui a) item \<and>
       getStatus (ui a) item = (''Available'', ColorTextSecondary) \<and>
       active_transfers a (audible_product_id item) = 0)"
proof -
  have "orderly a0" using assms(1,2) by (simp add: orderly_def)
  then have o: "orderly a" using assms(3) by (rule orderly_run)
  then have 1: "active_transfers a asin \<le> 1"
    using distinct_map_filter_length [of audible_product_id "transferring a" asin]
    by (simp add: active_transfers_def orderly_def)
  have 2: "\<not> isDownloaded item \<and> \<not> isDownloading (ui a) item \<and>
       getStatus (ui a) item = (''Available'', ColorTextSecondary) \<and>
       active_transfers a (audible_product_id item) = 0"
    if "app_step a (Press item) = Some a'" for item a'
  proof -
    from that have b: "download_button (ui a) item" by (auto split: if_splits)
    then have "\<forall>b \<in> set (transferring a). audible_product_id b \<noteq> audible_product_id item"
      using o by (auto simp: download_button_def isDownloading_def orderly_def)
    then have "active_transfers a (audible_product_id item) = 0"
      by (auto simp: active_transfers_def filter_empty_conv)
    with b show ?thesis
      by (simp add: download_button_def getStatus_def isDownloaded_def isDownloading_def)
  qed
  from 1 2 show ?thesis by blast
qed

lemma orderly_single_transfer_example:
  "preparing example_app = [] \<and> transferring example_app = [] \<and>
   run example_app (concat (map expand [Request example_book example_env])) =
     Some \<lparr>ui = begin_transfer example_book example_account ''/books'' example_screen,
           preparing = [], transferring = [example_book]\<rparr> \<and>
   active_transfers \<lparr>ui = begin_transfer example_book example_account ''/books'' example_screen,
           preparing = [], transferring = [example_book]\<rparr> ''B07T2F8VJM'' = 1 \<and>
   run example_app (concat (map expand [])) = Some example_app \<and>
   app_step example_app (Press example_book) =
     Some \<lparr>ui = example_screen, preparing = [example_book], transferring = []\<rparr> \<and>
   \<not> isDownloaded example_book \<and> \<not> isDownloading (ui example_app) example_book \<and>
   getStatus (ui example_app) example_book = (''Available'', ColorTextSecondary) \<and>
   active_transfers example_app (audible_product_id example_book) = 0"
proof -
  have e: "preparing example_app = []" "transferring example_app = []"
    by (simp_all add: example_app_def)
  have n: "run example_app (concat (map expand [])) = Some example_app"
    by simp
  have c: "active_transfers \<lparr>ui = begin_transfer example_book example_account ''/books''
             example_screen, preparing = [], transferring = [example_book]\<rparr> ''B07T2F8VJM'' = 1"
    by (simp add: active_transfers_def example_book_def)
  have p: "app_step example_app (Press example_book) =
      Some \<lparr>ui = example_screen, preparing = [example_book], transferring = []\<rparr>"
    by (simp only: example_app_def press_example)
  from orderly_single_transfer [OF e n, of "''B07T2F8VJM''"] p
  have g: "\<not> isDownloaded example_book \<and> \<not> isDownloading (ui example_app) example_book \<and>
      getStatus (ui example_app) example_book = (''Available'', ColorTextSecondary) \<and>
      active_transfers example_app (audible_product_id example_book) = 0"
    by blast
  from orderly_single_transfer [OF e request_example, of "''B07T2F8VJM''"] c e n p g request_example
  show ?thesis by (simp del: app_step.simps run.simps)
qed

text \<open>
  C3. The code aims at one transfer per title (the button is hidden while the title is
  marked, and the marker is one flag per title) and misses it: the marker is set only
  after the awaited lookups. When the button of a title is pressed twice before the
  first invocation has got through its lookups, both invocations call
  \<open>downloadAndDecryptBook\<close> for the same title and two transfers of it are running;
  when the first of them settles, its finally block removes the marker although the
  other transfer is still running.
\<close>

theorem duplicate_transfer:
  "map_option (\<lambda>a. (active_transfers a ''B07T2F8VJM'', effects (ui a)))
     (run example_app [Press example_book, Press example_book,
        Prepared example_book example_env, Prepared example_book example_env]) =
     Some (2, [DownloadAndDecryptBook example_account ''B07T2F8VJM'' ''/books'' ''High'',
               DownloadAndDecryptBook example_account ''B07T2F8VJM'' ''/books'' ''High'']) \<and>
   map_option (\<lambda>a. (active_transfers a ''B07T2F8VJM'',
                      ''B07T2F8VJM'' \<in> downloadingAsins (ui a)))
     (run example_app [Press example_book, Press example_book,
        Prepared example_book example_env, Prepared example_book example_env,
        Completed example_book example_env]) = Some (1, False)"
  by (simp add: example_app_def press_example prepared_example store_begin_transfer
      del: app_step.simps)
    (simp add: active_transfers_def example_book_def begin_transfer_def example_screen_def)

end
